theory Spec2Isabelle
  imports Main "HOL-Library.Signed_Division"
begin

section \<open>The two-tier cache of common/dcache/redis.go\<close>

text \<open>
  The file embeds the coherence layer of \<^verbatim>\<open>src/common/dcache/redis.go\<close>: the session
  struct, the broadcast listener and publisher, the TTL helper, \<^verbatim>\<open>Get\<close>, \<^verbatim>\<open>Set\<close>,
  \<^verbatim>\<open>Delete\<close>, \<^verbatim>\<open>ScanDelete\<close> and the hash accessors.

  Go's \<^verbatim>\<open>int\<close> is modelled as \<open>int\<close>; the only arithmetic that can leave the 64-bit
  range is the product \<^verbatim>\<open>time.Second*time.Duration(ttl)\<close>, whose wrap-around is written
  out. A \<^verbatim>\<open>uint64\<close> scan cursor is a \<open>nat\<close> (it is only stored, passed back and compared
  with zero). A Go \<^verbatim>\<open>error\<close> is its message; \<^verbatim>\<open>nil\<close> is \<open>None\<close>.
\<close>

subsection \<open>Constants and the notice struct\<close>

definition redis_item_timeout :: int where
  "redis_item_timeout = 60 * 60"

definition redis_sync_chan :: string where
  "redis_sync_chan = ''dcach_sync''"

definition redis_sync_set :: int where
  "redis_sync_set = 1"

definition redis_sync_del :: int where
  "redis_sync_del = 2"

record publisher =
  From :: string
  Act :: int
  Key :: string
  Val :: string
  Ttl :: int

type_synonym error = string

subsection \<open>encoding/json\<close>

text \<open>
  \<^verbatim>\<open>json.Marshal\<close> and \<^verbatim>\<open>json.Unmarshal\<close> belong to the Go standard library. They are
  parameters of the model, one pair per Go type that is encoded. \<^verbatim>\<open>Unmarshal\<close> writes
  through a pointer: it takes the old contents of the target and returns the new
  contents together with the error (a failing call may already have changed the target).
\<close>

record 'a json =
  Marshal :: "'a \<Rightarrow> error + string"
  Unmarshal :: "string \<Rightarrow> 'a \<Rightarrow> error option \<times> 'a"

subsection \<open>The Local Cache\<close>

text \<open>
  Modelled from the spec: the type \<^verbatim>\<open>MemSession\<close> and its methods \<^verbatim>\<open>Get\<close>, \<^verbatim>\<open>Set\<close>,
  \<^verbatim>\<open>Delete\<close>, \<^verbatim>\<open>Check\<close> and the constructor \<^verbatim>\<open>newMemSession\<close> are code of this
  repository that is not among the sources. The spec requires of the Local Cache
  "\<^verbatim>\<open>Get(key) -> (bytes, found)\<close>, \<^verbatim>\<open>Set(key, bytes, ttlSeconds) -> bool\<close>,
  \<^verbatim>\<open>Delete(key)\<close>, \<^verbatim>\<open>Check(key) -> bool\<close>" of "a bounded, TTL-aware local mapping from
  key to serialized value", and has \<^verbatim>\<open>Get\<close> of the orchestrator return true after the
  repopulating \<^verbatim>\<open>Set\<close>. The model is a map from key to the payload and the TTL that
  \<^verbatim>\<open>Set\<close> was given; no time passes between two operations, so an entry is found
  until it is deleted or overwritten.
\<close>

type_synonym MemSession = "string \<rightharpoonup> (string \<times> int)"

text \<open>Modelled from the spec: \<^verbatim>\<open>newMemSession\<close> is missing; a new Local Cache holds nothing.\<close>

definition newMemSession :: MemSession where
  "newMemSession = Map.empty"

text \<open>
  Modelled from the spec: \<^verbatim>\<open>MemSession.Get\<close> is missing; "\<^verbatim>\<open>Get(key) -> (bytes, found)\<close>".
  \<open>None\<close> is not found.
\<close>

definition mem_Get :: "MemSession \<Rightarrow> string \<Rightarrow> string option" where
  "mem_Get m key = map_option fst (m key)"

text \<open>
  Modelled from the spec: \<^verbatim>\<open>MemSession.Set\<close> is missing;
  "\<^verbatim>\<open>Set(key, bytes, ttlSeconds) -> bool\<close>". The entry is stored whatever the TTL is (the
  spec speaks of "caching a non-expiring entry" for a TTL that is not positive), and the
  result is true (after the repopulating \<^verbatim>\<open>Set\<close> the spec has \<^verbatim>\<open>Get\<close> "return true").
\<close>

definition mem_Set :: "MemSession \<Rightarrow> string \<Rightarrow> string \<Rightarrow> int \<Rightarrow> bool \<times> MemSession" where
  "mem_Set m key val ttl = (True, m(key \<mapsto> (val, ttl)))"

text \<open>Modelled from the spec: \<^verbatim>\<open>MemSession.Delete\<close> is missing; "\<^verbatim>\<open>Delete(key)\<close>" evicts the key.\<close>

definition mem_Delete :: "MemSession \<Rightarrow> string \<Rightarrow> MemSession" where
  "mem_Delete m key = m(key := None)"

text \<open>Modelled from the spec: \<^verbatim>\<open>MemSession.Check\<close> is missing; "\<^verbatim>\<open>Check(key) -> bool\<close>".\<close>

definition mem_Check :: "MemSession \<Rightarrow> string \<Rightarrow> bool" where
  "mem_Check m key = (m key \<noteq> None)"

subsection \<open>The session struct\<close>

text \<open>
  The fields \<^verbatim>\<open>client\<close> and \<^verbatim>\<open>clusterCLi\<close> are handles of the go-redis library; what
  is done through them is recorded in the history of the world below. Both constructors
  assign \<^verbatim>\<open>newMemSession()\<close> to \<^verbatim>\<open>mem\<close> and nothing assigns it again, so the field is
  never nil and the guards \<^verbatim>\<open>if rs.mem != nil\<close> of \<^verbatim>\<open>Set\<close> and \<^verbatim>\<open>Delete\<close> always hold.
\<close>

record RedisSession =
  ip :: string
  pass :: string
  name :: string
  mem :: MemSession
  cluster :: bool

subsection \<open>The Durable Store and the Broadcast Channel\<close>

text \<open>
  The store is reached through go-redis. Each command of the library returns a command
  object with a value and an error (\<^verbatim>\<open>Val()\<close>, \<^verbatim>\<open>Err()\<close>, \<^verbatim>\<open>Result()\<close>).
\<close>

record 'a Cmd =
  cmd_val :: 'a
  cmd_err :: "error option"

datatype handle = client | clusterCLi

datatype call =
    SUBSCRIBE string
  | PUBLISH string string
  | TTL string
  | HGET string string
  | HSET string string string
  | HDEL string "string list"
  | GET string
  | SET string string int
  | DEL "string list"
  | SCAN nat string int

datatype reply =
    StringCmd "string Cmd"
  | StatusCmd "string Cmd"
  | DurationCmd "int Cmd"
  | IntCmd "int Cmd"
  | ScanCmd "(string list \<times> nat) Cmd"
  | PubSub

type_synonym event = "handle \<times> call \<times> reply"

text \<open>
  The server is any deterministic responder: the reply to a command depends on the
  command, on the handle it is sent through and on everything that was sent before
  (the history, newest event first); any sequence of answers that a session can receive
  during one call is the answers of some such server. The third argument of \<open>SET\<close> and the value of a
  \<open>TTL\<close> reply are a \<^verbatim>\<open>time.Duration\<close>, in nanoseconds.
\<close>

record server =
  on_Publish :: "event list \<Rightarrow> handle \<Rightarrow> string \<Rightarrow> string \<Rightarrow> int Cmd"
  on_TTL :: "event list \<Rightarrow> handle \<Rightarrow> string \<Rightarrow> int Cmd"
  on_HGet :: "event list \<Rightarrow> handle \<Rightarrow> string \<Rightarrow> string \<Rightarrow> string Cmd"
  on_HSet :: "event list \<Rightarrow> handle \<Rightarrow> string \<Rightarrow> string \<Rightarrow> string \<Rightarrow> int Cmd"
  on_HDel :: "event list \<Rightarrow> handle \<Rightarrow> string \<Rightarrow> string list \<Rightarrow> int Cmd"
  on_Get :: "event list \<Rightarrow> handle \<Rightarrow> string \<Rightarrow> string Cmd"
  on_Set :: "event list \<Rightarrow> handle \<Rightarrow> string \<Rightarrow> string \<Rightarrow> int \<Rightarrow> string Cmd"
  on_Del :: "event list \<Rightarrow> handle \<Rightarrow> string list \<Rightarrow> int Cmd"
  on_Scan :: "event list \<Rightarrow> handle \<Rightarrow> nat \<Rightarrow> string \<Rightarrow> int \<Rightarrow> (string list \<times> nat) Cmd"

text \<open>
  A statement \<^verbatim>\<open>go rs.publish(key, val, ttl, act)\<close> starts a goroutine and does not wait
  for it: the model records the started call. The log package is modelled by the list
  of the errors that were reported.
\<close>

datatype goroutine = go_publish string string int int

datatype log_line = Warn error | Error error

record world =
  history :: "event list"
  spawned :: "goroutine list"
  logged :: "log_line list"

definition log_Warn :: "error \<Rightarrow> world \<Rightarrow> world" where
  "log_Warn e w = w\<lparr>logged := logged w @ [Warn e]\<rparr>"

definition log_Error :: "error \<Rightarrow> world \<Rightarrow> world" where
  "log_Error e w = w\<lparr>logged := logged w @ [Error e]\<rparr>"

definition spawn :: "goroutine \<Rightarrow> world \<Rightarrow> world" where
  "spawn g w = w\<lparr>spawned := spawned w @ [g]\<rparr>"

definition record_event :: "handle \<Rightarrow> call \<Rightarrow> reply \<Rightarrow> world \<Rightarrow> world" where
  "record_event h c r w = w\<lparr>history := (h, c, r) # history w\<rparr>"

definition redis_Publish :: "server \<Rightarrow> handle \<Rightarrow> string \<Rightarrow> string \<Rightarrow> world \<Rightarrow> int Cmd \<times> world" where
  "redis_Publish srv h chan msg w =
     (let r = on_Publish srv (history w) h chan msg
      in (r, record_event h (PUBLISH chan msg) (IntCmd r) w))"

definition redis_TTL :: "server \<Rightarrow> handle \<Rightarrow> string \<Rightarrow> world \<Rightarrow> int Cmd \<times> world" where
  "redis_TTL srv h key w =
     (let r = on_TTL srv (history w) h key
      in (r, record_event h (TTL key) (DurationCmd r) w))"

definition redis_HGet :: "server \<Rightarrow> handle \<Rightarrow> string \<Rightarrow> string \<Rightarrow> world \<Rightarrow> string Cmd \<times> world" where
  "redis_HGet srv h key field w =
     (let r = on_HGet srv (history w) h key field
      in (r, record_event h (HGET key field) (StringCmd r) w))"



definition redis_Get :: "server \<Rightarrow> handle \<Rightarrow> string \<Rightarrow> world \<Rightarrow> string Cmd \<times> world" where
  "redis_Get srv h key w =
     (let r = on_Get srv (history w) h key
      in (r, record_event h (GET key) (StringCmd r) w))"

definition redis_Set :: "server \<Rightarrow> handle \<Rightarrow> string \<Rightarrow> string \<Rightarrow> int \<Rightarrow> world \<Rightarrow> string Cmd \<times> world" where
  "redis_Set srv h key val expiration w =
     (let r = on_Set srv (history w) h key val expiration
      in (r, record_event h (SET key val expiration) (StatusCmd r) w))"

definition redis_Del :: "server \<Rightarrow> handle \<Rightarrow> string list \<Rightarrow> world \<Rightarrow> int Cmd \<times> world" where
  "redis_Del srv h ks w =
     (let r = on_Del srv (history w) h ks
      in (r, record_event h (DEL ks) (IntCmd r) w))"

definition redis_Scan :: "server \<Rightarrow> handle \<Rightarrow> nat \<Rightarrow> string \<Rightarrow> int \<Rightarrow> world \<Rightarrow> (string list \<times> nat) Cmd \<times> world" where
  "redis_Scan srv h cursor match count w =
     (let r = on_Scan srv (history w) h cursor match count
      in (r, record_event h (SCAN cursor match count) (ScanCmd r) w))"

subsection \<open>publish\<close>

definition publish ::
  "publisher json \<Rightarrow> server \<Rightarrow> RedisSession \<Rightarrow> string \<Rightarrow> string \<Rightarrow> int \<Rightarrow> int \<Rightarrow> world \<Rightarrow> world" where
  "publish J srv rs key val ttl act w =
     (let p = \<lparr>From = name rs, Act = act, Key = key, Val = val, Ttl = ttl\<rparr>
      in case Marshal J p of
           Inl e \<Rightarrow> log_Warn e w
         | Inr s \<Rightarrow>
             if cluster rs then
               (let (rsp, w1) = redis_Publish srv clusterCLi redis_sync_chan s w
                in case cmd_err rsp of Some e \<Rightarrow> log_Warn e w1 | None \<Rightarrow> w1)
             else
               (let (rsp, w1) = redis_Publish srv client redis_sync_chan s w
                in case cmd_err rsp of Some e \<Rightarrow> log_Warn e w1 | None \<Rightarrow> w1))"

subsection \<open>Delete\<close>

definition Delete :: "server \<Rightarrow> RedisSession \<Rightarrow> string \<Rightarrow> world \<Rightarrow> bool \<times> RedisSession \<times> world" where
  "Delete srv rs key w =
     (let (rsp, w1) = (if cluster rs then redis_Del srv clusterCLi [key] w
                       else redis_Del srv client [key] w);
          w2 = (case cmd_err rsp of Some e \<Rightarrow> log_Warn e w1 | None \<Rightarrow> w1);
          rs1 = rs\<lparr>mem := mem_Delete (mem rs) key\<rparr>;
          w3 = spawn (go_publish key '''' 0 redis_sync_del) w2
      in (True, rs1, w3))"

subsection \<open>getTtl and the hash accessors\<close>

text \<open>
  \<^verbatim>\<open>int(dur.Val().Seconds())\<close>: the whole seconds of a duration of \<open>d\<close> nanoseconds,
  rounded towards zero (the rounding of the intermediate \<^verbatim>\<open>float64\<close> is left out; it
  is exact on whole seconds).
\<close>

definition Seconds :: "int \<Rightarrow> int" where
  "Seconds d = d sdiv 1000000000"

definition getTtl :: "server \<Rightarrow> RedisSession \<Rightarrow> string \<Rightarrow> world \<Rightarrow> (int \<times> bool) \<times> world" where
  "getTtl srv rs key w =
     (let (dur, w1) = (if cluster rs then redis_TTL srv clusterCLi key w
                       else redis_TTL srv client key w)
      in ((Seconds (cmd_val dur), True), w1))"

definition HGet :: "server \<Rightarrow> RedisSession \<Rightarrow> string \<Rightarrow> string \<Rightarrow> world \<Rightarrow> (string \<times> error option) \<times> world" where
  "HGet srv rs key field w =
     (if cluster rs then
        (let (r, w1) = redis_HGet srv clusterCLi key field w in ((cmd_val r, cmd_err r), w1))
      else
        (let (r, w1) = redis_HGet srv client key field w in ((cmd_val r, cmd_err r), w1)))"



subsection \<open>Get\<close>

text \<open>
  \<^verbatim>\<open>Get\<close> has six return statements; the model returns, next to the boolean, the
  source line of the one that was taken. The other components are the contents of
  \<^verbatim>\<open>data\<close> after the call, the session and the world.
\<close>

datatype Get_return = line168 | line176 | line179 | line181 | line185 | line187

definition Get ::
  "'a json \<Rightarrow> server \<Rightarrow> RedisSession \<Rightarrow> string \<Rightarrow> 'a \<Rightarrow> world
     \<Rightarrow> bool \<times> Get_return \<times> 'a \<times> RedisSession \<times> world" where
  "Get J srv rs key data w =
     (case mem_Get (mem rs) key of
        None \<Rightarrow>
          (let (str, w1) = (if cluster rs then redis_Get srv clusterCLi key w
                            else redis_Get srv client key w)
           in case cmd_err str of
                Some e \<Rightarrow> (False, line168, data, rs, log_Warn e w1)
              | None \<Rightarrow>
                  (let s = cmd_val str;
                       ((ttl, ok), w2) = getTtl srv rs key w1
                   in if ok then
                        (case Unmarshal J (cmd_val str) data of
                           (Some e, data1) \<Rightarrow> (False, line176, data1, rs, log_Warn e w2)
                         | (None, data1) \<Rightarrow>
                             (let (b, m1) = mem_Set (mem rs) key s (ttl - 5)
                              in (b, line179, data1, rs\<lparr>mem := m1\<rparr>, w2)))
                      else (False, line181, data, rs, w2)))
      | Some s \<Rightarrow>
          (case Unmarshal J s data of
             (Some e, data1) \<Rightarrow> (False, line185, data1, rs, log_Warn e w)
           | (None, data1) \<Rightarrow> (True, line187, data1, rs, w)))"

subsection \<open>Set\<close>

text \<open>
  \<^verbatim>\<open>time.Second*time.Duration(ttl)\<close> is a product of two \<^verbatim>\<open>int64\<close>, which wraps around.
\<close>

definition Second :: int where
  "Second = 1000000000"

definition Duration_mult :: "int \<Rightarrow> int \<Rightarrow> int" where
  "Duration_mult a b = signed_take_bit 63 (a * b)"

definition Set ::
  "'a json \<Rightarrow> server \<Rightarrow> RedisSession \<Rightarrow> string \<Rightarrow> 'a \<Rightarrow> int \<Rightarrow> world
     \<Rightarrow> bool \<times> RedisSession \<times> world" where
  "Set J srv rs key data ttl w =
     (case Marshal J data of
        Inl e \<Rightarrow> (False, rs, log_Warn e w)
      | Inr s \<Rightarrow>
          (let ttl1 = (if ttl \<le> 0 then redis_item_timeout else ttl);
               (rsp, w1) = (if cluster rs
                            then redis_Set srv clusterCLi key s (Duration_mult Second ttl1) w
                            else redis_Set srv client key s (Duration_mult Second ttl1) w)
           in case cmd_err rsp of
                Some e \<Rightarrow> (False, rs, log_Warn e w1)
              | None \<Rightarrow>
                  (let (b, m1) = mem_Set (mem rs) key s ttl1
                   in (True, rs\<lparr>mem := m1\<rparr>, spawn (go_publish key s ttl1 redis_sync_set) w1))))"

subsection \<open>subscribe\<close>

text \<open>
  The listener reads the channel of the subscription until it is closed; the model
  gets the payloads that are delivered as a list. The variable \<^verbatim>\<open>pub\<close> is declared
  before the loop, so each \<^verbatim>\<open>json.Unmarshal\<close> writes into what the previous one left.
\<close>

definition subscribe_msg ::
  "publisher json \<Rightarrow> string \<Rightarrow> publisher \<times> RedisSession \<times> world \<Rightarrow> publisher \<times> RedisSession \<times> world" where
  "subscribe_msg J payload st =
     (case st of (pub0, rs, w) \<Rightarrow>
        (case Unmarshal J payload pub0 of
           (None, pub) \<Rightarrow>
             if From pub \<noteq> name rs then
               if From pub \<noteq> name rs then
                 if Act pub = redis_sync_set then
                   (pub, rs\<lparr>mem := snd (mem_Set (mem rs) (Key pub) (Val pub) (Ttl pub))\<rparr>, w)
                 else if Act pub = redis_sync_del then
                   (pub, rs\<lparr>mem := mem_Delete (mem rs) (Key pub)\<rparr>, w)
                 else (pub, rs, w)
               else (pub, rs, w)
             else (pub, rs, w)
         | (Some e, pub) \<Rightarrow> (pub, rs, log_Warn e w)))"

fun subscribe_range ::
  "publisher json \<Rightarrow> string list \<Rightarrow> publisher \<times> RedisSession \<times> world \<Rightarrow> publisher \<times> RedisSession \<times> world" where
  "subscribe_range J [] st = st"
| "subscribe_range J (payload # chn) st = subscribe_range J chn (subscribe_msg J payload st)"

definition subscribe ::
  "publisher json \<Rightarrow> RedisSession \<Rightarrow> string list \<Rightarrow> world \<Rightarrow> RedisSession \<times> world" where
  "subscribe J rs chn w =
     (let w1 = (if cluster rs then record_event clusterCLi (SUBSCRIBE redis_sync_chan) PubSub w
                else record_event client (SUBSCRIBE redis_sync_chan) PubSub w);
          pub = \<lparr>From = '''', Act = 0, Key = '''', Val = '''', Ttl = 0\<rparr>
      in snd (subscribe_range J chn (pub, rs, w1)))"

subsection \<open>ScanDelete\<close>

text \<open>
  The outer loop of \<^verbatim>\<open>ScanDelete\<close> ends only when the store returns the cursor zero or
  an error, so it is defined with fuel: \<open>None\<close> says that the loop was still running
  when the fuel ran out.
\<close>

fun ScanDelete_range :: "server \<Rightarrow> RedisSession \<Rightarrow> string \<Rightarrow> string list \<Rightarrow> world \<Rightarrow> error option \<times> world" where
  "ScanDelete_range srv rs key [] w = (None, w)"
| "ScanDelete_range srv rs key (v # vs) w =
     (let (r, w1) = (if cluster rs then redis_Del srv clusterCLi [v] w
                     else redis_Del srv client [v] w)
      in case cmd_err r of
           Some e \<Rightarrow> (Some e, log_Error e w1)
         | None \<Rightarrow> ScanDelete_range srv rs key vs w1)"

fun ScanDelete_for ::
  "nat \<Rightarrow> server \<Rightarrow> RedisSession \<Rightarrow> string \<Rightarrow> nat \<Rightarrow> int \<Rightarrow> world
     \<Rightarrow> ((int \<times> error option) \<times> world) option" where
  "ScanDelete_for 0 srv rs key cursor n w = None"
| "ScanDelete_for (Suc fuel) srv rs key cursor n w =
     (let (r, w1) = (if cluster rs then redis_Scan srv clusterCLi cursor key 100 w
                     else redis_Scan srv client cursor key 100 w)
      in case cmd_err r of
           Some e \<Rightarrow> Some ((0, Some e), log_Error e w1)
         | None \<Rightarrow>
             (let (ks, cursor1) = cmd_val r;
                  n1 = n + int (length ks)
              in case ScanDelete_range srv rs key ks w1 of
                   (Some e, w2) \<Rightarrow> Some ((n1, Some e), w2)
                 | (None, w2) \<Rightarrow>
                     if cursor1 = 0 then Some ((n1, None), w2)
                     else ScanDelete_for fuel srv rs key cursor1 n1 w2))"

definition ScanDelete ::
  "nat \<Rightarrow> server \<Rightarrow> RedisSession \<Rightarrow> string \<Rightarrow> world \<Rightarrow> ((int \<times> error option) \<times> world) option" where
  "ScanDelete fuel srv rs key w = ScanDelete_for fuel srv rs key 0 0 w"

subsection \<open>CheckMem\<close>

definition CheckMem :: "RedisSession \<Rightarrow> string \<Rightarrow> bool" where
  "CheckMem rs key = mem_Check (mem rs) key"

subsection \<open>Notions used in the statements\<close>

text \<open>
  The handle a session sends its commands through, and the execution of a goroutine
  that was started.
\<close>

definition handle_of :: "RedisSession \<Rightarrow> handle" where
  "handle_of rs = (if cluster rs then clusterCLi else client)"

definition run :: "publisher json \<Rightarrow> server \<Rightarrow> RedisSession \<Rightarrow> goroutine \<Rightarrow> world \<Rightarrow> world" where
  "run J srv rs g w = (case g of go_publish key val ttl act \<Rightarrow> publish J srv rs key val ttl act w)"

text \<open>
  The answers of the store that \<^verbatim>\<open>Get\<close> and \<^verbatim>\<open>Set\<close> receive in a world \<open>w\<close>: to the
  \<open>GET\<close> of the key, to the \<open>TTL\<close> query that follows it, and to the \<open>SET\<close> of a payload
  with a TTL in seconds.
\<close>

definition GET_reply :: "server \<Rightarrow> RedisSession \<Rightarrow> string \<Rightarrow> world \<Rightarrow> string Cmd" where
  "GET_reply srv rs key w = on_Get srv (history w) (handle_of rs) key"

definition TTL_reply :: "server \<Rightarrow> RedisSession \<Rightarrow> string \<Rightarrow> world \<Rightarrow> int Cmd" where
  "TTL_reply srv rs key w =
     on_TTL srv ((handle_of rs, GET key, StringCmd (GET_reply srv rs key w)) # history w)
       (handle_of rs) key"

definition SET_reply :: "server \<Rightarrow> RedisSession \<Rightarrow> string \<Rightarrow> string \<Rightarrow> int \<Rightarrow> world \<Rightarrow> string Cmd" where
  "SET_reply srv rs key s ttl w = on_Set srv (history w) (handle_of rs) key s (Duration_mult Second ttl)"

text \<open>
  The events that a call added to the history, oldest first, and what can be read off
  them: the command of an event, the scan requests (cursor, pattern, page size), the
  pages that the scans returned (keys, next cursor), the keys of all those pages, and
  the keys whose delete the store accepted.
\<close>

definition new_events :: "world \<Rightarrow> world \<Rightarrow> event list" where
  "new_events w w' = rev (take (length (history w') - length (history w)) (history w'))"

definition call_of :: "event \<Rightarrow> call" where
  "call_of ev = fst (snd ev)"

definition scan_request :: "event \<Rightarrow> (nat \<times> string \<times> int) list" where
  "scan_request ev = (case ev of (h, SCAN c m n, r) \<Rightarrow> [(c, m, n)] | _ \<Rightarrow> [])"

definition scan_page :: "event \<Rightarrow> (string list \<times> nat) list" where
  "scan_page ev =
     (case ev of
        (h, SCAN c m n, ScanCmd r) \<Rightarrow> (case cmd_err r of None \<Rightarrow> [cmd_val r] | Some e \<Rightarrow> [])
      | _ \<Rightarrow> [])"

definition deleted_keys :: "event \<Rightarrow> string list" where
  "deleted_keys ev =
     (case ev of
        (h, DEL ks, IntCmd r) \<Rightarrow> (case cmd_err r of None \<Rightarrow> ks | Some e \<Rightarrow> [])
      | _ \<Rightarrow> [])"

definition scan_requests :: "event list \<Rightarrow> (nat \<times> string \<times> int) list" where
  "scan_requests evs = concat (map scan_request evs)"

definition scan_pages :: "event list \<Rightarrow> (string list \<times> nat) list" where
  "scan_pages evs = concat (map scan_page evs)"

definition scanned :: "event list \<Rightarrow> string list" where
  "scanned evs = concat (map fst (scan_pages evs))"

definition deleted :: "event list \<Rightarrow> string list" where
  "deleted evs = concat (map deleted_keys evs)"

text \<open>
  What the events of a run of the loop of \<^verbatim>\<open>ScanDelete\<close> look like, when the run starts
  at cursor \<open>c0\<close> with count \<open>n0\<close> and returns \<open>n\<close> and \<open>e\<close>: every scan asks for
  pages of 100 keys of the pattern, the first at \<open>c0\<close> and each later one at the cursor
  the store returned last, and only the last page can carry the cursor zero. Without
  error the count is \<open>n0\<close> plus the number of keys scanned, all of them deleted, and the
  last cursor is zero. After a failed scan the count is zero. After a failed delete the
  count is \<open>n0\<close> plus the number of keys scanned, of which a proper prefix was deleted.
\<close>

definition ScanDelete_outcome ::"string \<Rightarrow> nat \<Rightarrow> int \<Rightarrow> event list \<Rightarrow> int \<Rightarrow> error option \<Rightarrow> bool" where
  "ScanDelete_outcome key c0 n0 evs n e =
     (scan_requests evs =
        map (\<lambda>c. (c, key, 100)) (take (length (scan_requests evs)) (c0 # map snd (scan_pages evs)))
      \<and> list_all (\<lambda>c. c \<noteq> 0) (butlast (map snd (scan_pages evs)))
      \<and> (case e of
            None \<Rightarrow>
              n = n0 + int (length (scanned evs)) \<and> deleted evs = scanned evs
              \<and> length (scan_requests evs) = length (scan_pages evs)
              \<and> scan_pages evs \<noteq> [] \<and> snd (last (scan_pages evs)) = 0
          | Some x \<Rightarrow>
              if length (scan_pages evs) < length (scan_requests evs)
              then n = 0 \<and> deleted evs = scanned evs \<and> list_all (\<lambda>c. c \<noteq> 0) (map snd (scan_pages evs))
              else n = n0 + int (length (scanned evs))
                \<and> length (deleted evs) < length (scanned evs)
                \<and> take (length (deleted evs)) (scanned evs) = deleted evs))"

subsection \<open>A store, codecs and a session to run the model on\<close>

text \<open>
  The codec of the cached values writes a string \<open>v\<close> as \<open>s:v\<close> and refuses the value
  \<open>chan\<close>; the codec of notices decodes three payloads. The store answers from a fixed
  table of values and remaining durations, fails every write to a key of \<open>broken\<close> and
  pages its keys as \<open>pages\<close> says. \<open>demo_pages\<close> holds four keys in two pages, the
  second one at cursor 7; \<open>demo_rank\<close> ranks its cursors by the pages that are left.
\<close>

definition demo_json :: "string json" where
  "demo_json =
     \<lparr>Marshal = (\<lambda>v. if v = ''chan'' then Inl ''json: unsupported type'' else Inr (''s:'' @ v)),
      Unmarshal = (\<lambda>s d. if take 2 s = ''s:'' then (None, drop 2 s)
                          else (Some ''invalid character'', d))\<rparr>"

definition demo_notice_json :: "publisher json" where
  "demo_notice_json =
     \<lparr>Marshal = (\<lambda>p. Inr (From p @ ''|'' @ (if Act p = 1 then ''set'' else ''del'') @ ''|'' @ Key p @ ''|'' @ Val p)),
      Unmarshal = (\<lambda>s pub.
         if s = ''peer|set|k|s:v'' then (None, pub\<lparr>From := ''peer'', Act := 1, Key := ''k'', Val := ''s:v'', Ttl := 30\<rparr>)
         else if s = ''peer|del|k|'' then (None, pub\<lparr>From := ''peer'', Act := 2, Key := ''k'', Val := '''', Ttl := 0\<rparr>)
         else if s = ''self|set|k|s:v'' then (None, pub\<lparr>From := ''self'', Act := 1, Key := ''k'', Val := ''s:v'', Ttl := 30\<rparr>)
         else (Some ''invalid character'', pub))\<rparr>"

definition ok_Cmd :: "'a \<Rightarrow> 'a Cmd" where
  "ok_Cmd v = \<lparr>cmd_val = v, cmd_err = None\<rparr>"

definition err_Cmd :: "'a \<Rightarrow> error \<Rightarrow> 'a Cmd" where
  "err_Cmd v e = \<lparr>cmd_val = v, cmd_err = Some e\<rparr>"

definition demo_server :: "(string \<rightharpoonup> string \<times> int) \<Rightarrow> string list \<Rightarrow> (nat \<Rightarrow> string list \<times> nat) \<Rightarrow> server" where
  "demo_server kv broken pages =
     \<lparr>on_Publish = (\<lambda>hist h chan msg. ok_Cmd 1),
      on_TTL = (\<lambda>hist h key. case kv key of None \<Rightarrow> ok_Cmd (- 2) | Some (v, d) \<Rightarrow> ok_Cmd d),
      on_HGet = (\<lambda>hist h key field. err_Cmd '''' ''redis: nil''),
      on_HSet = (\<lambda>hist h key field data. ok_Cmd 1),
      on_HDel = (\<lambda>hist h key flds. if flds = [] then err_Cmd 0 ''ERR wrong number of arguments'' else ok_Cmd 0),
      on_Get = (\<lambda>hist h key. case kv key of None \<Rightarrow> err_Cmd '''' ''redis: nil'' | Some (v, d) \<Rightarrow> ok_Cmd v),
      on_Set = (\<lambda>hist h key val expiration. if key \<in> set broken then err_Cmd '''' ''READONLY'' else ok_Cmd ''OK''),
      on_Del = (\<lambda>hist h ks. if set ks \<inter> set broken = {} then ok_Cmd 1 else err_Cmd 0 ''READONLY''),
      on_Scan = (\<lambda>hist h cursor match count. ok_Cmd (pages cursor))\<rparr>"

definition demo_session :: RedisSession where
  "demo_session = \<lparr>ip = ''127.0.0.1:6379'', pass = '''', name = ''self'', mem = newMemSession, cluster = False\<rparr>"

definition demo_world :: world where
  "demo_world = \<lparr>history = [], spawned = [], logged = []\<rparr>"

definition demo_pages :: "nat \<Rightarrow> string list \<times> nat" where
  "demo_pages c = (if c = 0 then ([''a'', ''b''], 7) else if c = 7 then ([''c'', ''d''], 0) else ([], 0))"

definition demo_rank :: "nat \<Rightarrow> nat" where
  "demo_rank c = (if c = 0 then 2 else if c = 7 then 1 else 0)"

section \<open>Properties\<close>

text \<open>The equations that evaluate the model on the example store.\<close>

lemmas demo_defs =
  demo_json_def demo_notice_json_def demo_server_def demo_session_def demo_world_def
  ok_Cmd_def err_Cmd_def newMemSession_def

lemmas Set_defs =
  Let_def Set_def redis_Set_def record_event_def log_Warn_def spawn_def mem_Set_def
  Duration_mult_def Second_def redis_item_timeout_def redis_sync_set_def

lemmas ScanDelete_defs =
  Let_def ScanDelete_def redis_Scan_def redis_Del_def record_event_def log_Error_def
  eval_nat_numeral

subsection \<open>Delete and publish\<close>

text \<open>
  What \<^verbatim>\<open>publish\<close> sends when the notice is encoded, and \<^verbatim>\<open>Delete\<close> as one equation
  for both topologies.
\<close>

lemma publish_history:
  assumes "Marshal J \<lparr>From = name rs, Act = act, Key = key, Val = val, Ttl = ttl\<rparr> = Inr s"
  shows "history (publish J srv rs key val ttl act w) =
           (handle_of rs, PUBLISH redis_sync_chan s,
            IntCmd (on_Publish srv (history w) (handle_of rs) redis_sync_chan s)) # history w"
  using assms
  by (simp add: publish_def redis_Publish_def record_event_def log_Warn_def handle_of_def Let_def
           split: option.splits)

lemma Delete_eq:
  "Delete srv rs key w =
     (True,
      rs\<lparr>mem := mem_Delete (mem rs) key\<rparr>,
      spawn (go_publish key '''' 0 redis_sync_del)
        ((case cmd_err (on_Del srv (history w) (handle_of rs) [key]) of
            Some e \<Rightarrow> log_Warn e | None \<Rightarrow> (\<lambda>w. w))
         (record_event (handle_of rs) (DEL [key])
            (IntCmd (on_Del srv (history w) (handle_of rs) [key])) w)))"
  by (simp add: Delete_def redis_Del_def handle_of_def Let_def split: option.splits)

text \<open>
  C6: for every key, \<^verbatim>\<open>Delete\<close> returns true, evicts the key from the Local Cache and
  starts the publication of a Delete notice with empty payload and TTL zero, whatever
  the store answers to the delete, an error included. The started goroutine, when it
  runs and the notice is encoded, publishes it on the channel \<^verbatim>\<open>dcach_sync\<close>.
\<close>

theorem Delete_always_true:
  assumes "Delete srv rs key w = (b, rs', w')"
  shows "b
    \<and> rs' = rs\<lparr>mem := mem_Delete (mem rs) key\<rparr>
    \<and> mem_Get (mem rs') key = None
    \<and> spawned w' = spawned w @ [go_publish key '''' 0 redis_sync_del]
    \<and> history w' = (handle_of rs, DEL [key], IntCmd (on_Del srv (history w) (handle_of rs) [key])) # history w
    \<and> (\<forall>s. Marshal J \<lparr>From = name rs, Act = redis_sync_del, Key = key, Val = '''', Ttl = 0\<rparr> = Inr s
          \<longrightarrow> history (run J srv rs' (last (spawned w')) w') =
                (handle_of rs, PUBLISH redis_sync_chan s,
                 IntCmd (on_Publish srv (history w') (handle_of rs) redis_sync_chan s)) # history w')"
proof -
  from assms have b: "b" and rs': "rs' = rs\<lparr>mem := mem_Delete (mem rs) key\<rparr>"
    and w': "w' = spawn (go_publish key '''' 0 redis_sync_del)
        ((case cmd_err (on_Del srv (history w) (handle_of rs) [key]) of
            Some e \<Rightarrow> log_Warn e | None \<Rightarrow> (\<lambda>w. w))
         (record_event (handle_of rs) (DEL [key])
            (IntCmd (on_Del srv (history w) (handle_of rs) [key])) w))"
    by (simp_all add: Delete_eq)
  have sp: "spawned w' = spawned w @ [go_publish key '''' 0 redis_sync_del]"
    by (simp add: w' spawn_def log_Warn_def record_event_def split: option.splits)
  have hi: "history w' = (handle_of rs, DEL [key], IntCmd (on_Del srv (history w) (handle_of rs) [key])) # history w"
    by (simp add: w' spawn_def log_Warn_def record_event_def split: option.splits)
  have ev: "mem_Get (mem rs') key = None"
    by (simp add: rs' mem_Get_def mem_Delete_def)
  have nm: "name rs' = name rs" "handle_of rs' = handle_of rs"
    by (simp_all add: rs' handle_of_def)
  have pu: "\<forall>s. Marshal J \<lparr>From = name rs, Act = redis_sync_del, Key = key, Val = '''', Ttl = 0\<rparr> = Inr s
          \<longrightarrow> history (run J srv rs' (last (spawned w')) w') =
                (handle_of rs, PUBLISH redis_sync_chan s,
                 IntCmd (on_Publish srv (history w') (handle_of rs) redis_sync_chan s)) # history w'"
    using publish_history[of J rs' redis_sync_del key "''''" 0 _ srv w']
    by (simp add: sp run_def nm)
  from b rs' ev sp hi pu show ?thesis by blast
qed

theorem Delete_always_true_witness:
  "cmd_err (on_Del (demo_server Map.empty [''k''] (\<lambda>c. ([], 0))) [] client [''k'']) = Some ''READONLY''
   \<and> Delete (demo_server Map.empty [''k''] (\<lambda>c. ([], 0)))
        (demo_session\<lparr>mem := [''k'' \<mapsto> (''s:v'', 10)]\<rparr>) ''k'' demo_world =
      (True, demo_session\<lparr>mem := mem_Delete [''k'' \<mapsto> (''s:v'', 10)] ''k''\<rparr>,
       \<lparr>history = [(client, DEL [''k''], IntCmd (err_Cmd 0 ''READONLY''))],
        spawned = [go_publish ''k'' '''' 0 2], logged = [Warn ''READONLY'']\<rparr>)
   \<and> mem_Get (mem_Delete [''k'' \<mapsto> (''s:v'', 10)] ''k'') ''k'' = None
   \<and> history (run demo_notice_json (demo_server Map.empty [''k''] (\<lambda>c. ([], 0)))
        (demo_session\<lparr>mem := mem_Delete [''k'' \<mapsto> (''s:v'', 10)] ''k''\<rparr>) (go_publish ''k'' '''' 0 2)
        \<lparr>history = [(client, DEL [''k''], IntCmd (err_Cmd 0 ''READONLY''))],
         spawned = [go_publish ''k'' '''' 0 2], logged = [Warn ''READONLY'']\<rparr>) =
      [(client, PUBLISH ''dcach_sync'' ''self|del|k|'', IntCmd (ok_Cmd 1)),
       (client, DEL [''k''], IntCmd (err_Cmd 0 ''READONLY''))]"
proof -
  have ev: "Delete (demo_server Map.empty [''k''] (\<lambda>c. ([], 0)))
        (demo_session\<lparr>mem := [''k'' \<mapsto> (''s:v'', 10)]\<rparr>) ''k'' demo_world =
      (True, demo_session\<lparr>mem := mem_Delete [''k'' \<mapsto> (''s:v'', 10)] ''k''\<rparr>,
       \<lparr>history = [(client, DEL [''k''], IntCmd (err_Cmd 0 ''READONLY''))],
        spawned = [go_publish ''k'' '''' 0 2], logged = [Warn ''READONLY'']\<rparr>)"
    by (simp add: Let_def Delete_def redis_Del_def record_event_def log_Warn_def spawn_def
          demo_server_def demo_session_def demo_world_def err_Cmd_def ok_Cmd_def redis_sync_del_def)
  have ma: "Marshal demo_notice_json \<lparr>From = ''self'', Act = 2, Key = ''k'', Val = '''', Ttl = 0\<rparr>
              = Inr ''self|del|k|''"
    by (simp add: demo_notice_json_def)
  from Delete_always_true [OF ev, of demo_notice_json] ev ma show ?thesis
    by (simp add: demo_server_def demo_session_def err_Cmd_def ok_Cmd_def redis_sync_del_def
          redis_sync_chan_def handle_of_def)
qed

subsection \<open>Get\<close>

text \<open>
  \<^verbatim>\<open>Get\<close> on a Local Cache hit and on a miss, for both topologies; \<^verbatim>\<open>getTtl\<close> reports
  the whole seconds of the store's answer and the constant true.
\<close>

lemma Get_local:
  assumes "mem_Get (mem rs) key = Some s"
  shows "Get J srv rs key data w =
     (case Unmarshal J s data of
        (Some e, data1) \<Rightarrow> (False, line185, data1, rs, log_Warn e w)
      | (None, data1) \<Rightarrow> (True, line187, data1, rs, w))"
  using assms by (simp add: Get_def)



text \<open>
  C8: when the Local Cache holds for the key a payload that \<^verbatim>\<open>json.Unmarshal\<close> rejects,
  \<^verbatim>\<open>Get\<close> returns false through the return statement of line 185, although the key was
  found: the session is unchanged, the error is logged and the store is not asked.
\<close>

theorem Get_corrupt_local_entry:
  assumes "mem_Get (mem rs) key = Some s" and "Unmarshal J s data = (Some e, data1)"
  shows "Get J srv rs key data w = (False, line185, data1, rs, log_Warn e w)
     \<and> history (log_Warn e w) = history w"
  using assms by (simp add: Get_local log_Warn_def)

theorem Get_corrupt_local_entry_witness:
  "mem_Get [''k'' \<mapsto> (''garbage'', 10)] ''k'' = Some ''garbage''
   \<and> Unmarshal demo_json ''garbage'' ''old'' = (Some ''invalid character'', ''old'')
   \<and> Get demo_json (demo_server Map.empty [] (\<lambda>c. ([], 0)))
        (demo_session\<lparr>mem := [''k'' \<mapsto> (''garbage'', 10)]\<rparr>) ''k'' ''old'' demo_world =
      (False, line185, ''old'', demo_session\<lparr>mem := [''k'' \<mapsto> (''garbage'', 10)]\<rparr>,
       log_Warn ''invalid character'' demo_world)"
proof -
  have m: "mem_Get (mem (demo_session\<lparr>mem := [''k'' \<mapsto> (''garbage'', 10)]\<rparr>)) ''k'' = Some ''garbage''"
    by (simp add: mem_Get_def)
  have u: "Unmarshal demo_json ''garbage'' ''old'' = (Some ''invalid character'', ''old'')"
    by (simp add: demo_json_def)
  from Get_corrupt_local_entry [OF m u] m u show ?thesis by simp
qed



text \<open>
  C1: a value fetched from the store with remaining TTL \<open>T\<close> should be cached with TTL
  \<open>T - 5\<close>, and for \<open>T \<le> 0\<close> nothing should be cached and \<^verbatim>\<open>Get\<close> should return false.
  The code does the first and not the second. With the key \<open>k\<close> in the store, a payload
  that decodes and no expiry (the store answers the TTL query with -1 nanosecond,
  zero seconds), \<^verbatim>\<open>Get\<close> returns true through line 179 and the
  Local Cache then holds \<open>k\<close> with TTL \<open>-5\<close>.
\<close>

theorem Get_caches_nonpositive_ttl:
  "Seconds (cmd_val (TTL_reply (demo_server [''k'' \<mapsto> (''s:v'', - 1)] [] (\<lambda>c. ([], 0)))
         demo_session ''k'' demo_world)) = 0
   \<and> Get demo_json (demo_server [''k'' \<mapsto> (''s:v'', - 1)] [] (\<lambda>c. ([], 0))) demo_session ''k'' ''old''
        demo_world =
      (True, line179, ''v'', demo_session\<lparr>mem := [''k'' \<mapsto> (''s:v'', - 5)]\<rparr>,
       \<lparr>history = [(client, TTL ''k'', DurationCmd (ok_Cmd (- 1))),
                   (client, GET ''k'', StringCmd (ok_Cmd ''s:v''))],
        spawned = [], logged = []\<rparr>)
   \<and> CheckMem (demo_session\<lparr>mem := [''k'' \<mapsto> (''s:v'', - 5)]\<rparr>) ''k''"
  by (simp add: Let_def Get_def getTtl_def redis_Get_def redis_TTL_def record_event_def
        mem_Get_def mem_Set_def mem_Check_def CheckMem_def newMemSession_def Seconds_def
        signed_divide_int_def TTL_reply_def GET_reply_def handle_of_def
        demo_json_def demo_server_def demo_session_def demo_world_def ok_Cmd_def err_Cmd_def)

subsection \<open>Set\<close>

text \<open>\<^verbatim>\<open>Set\<close> as one equation for both topologies.\<close>

lemma Set_eq:
  "Set J srv rs key data ttl w =
     (case Marshal J data of
        Inl e \<Rightarrow> (False, rs, log_Warn e w)
      | Inr s \<Rightarrow>
          (let ttl1 = (if ttl \<le> 0 then redis_item_timeout else ttl);
               rsp = SET_reply srv rs key s ttl1 w;
               w1 = record_event (handle_of rs) (SET key s (Duration_mult Second ttl1)) (StatusCmd rsp) w
           in case cmd_err rsp of
                Some e \<Rightarrow> (False, rs, log_Warn e w1)
              | None \<Rightarrow>
                  (True, rs\<lparr>mem := snd (mem_Set (mem rs) key s ttl1)\<rparr>,
                   spawn (go_publish key s ttl1 redis_sync_set) w1)))"
  by (simp add: Set_def redis_Set_def SET_reply_def handle_of_def Let_def
        split: sum.splits option.splits prod.splits)

text \<open>
  The expiration that \<^verbatim>\<open>Set\<close> passes to the store is the TTL in nanoseconds as long as
  the product fits into 64 bits; from 9223372037 seconds on it wraps around.
\<close>

lemma Duration_mult_exact:
  assumes "0 < ttl" and "ttl \<le> 9223372036"
  shows "Duration_mult Second ttl = 1000000000 * ttl \<and> 0 < Duration_mult Second ttl"
proof -
  have lo: "- (2 ^ 63) \<le> 1000000000 * ttl" using assms by simp
  have hi: "1000000000 * ttl < 2 ^ 63" using assms by simp
  have "signed_take_bit 63 (1000000000 * ttl) = 1000000000 * ttl"
    using lo hi by (simp add: signed_take_bit_int_eq_self)
  with assms show ?thesis by (simp add: Duration_mult_def Second_def)
qed

lemma Duration_mult_wraps:
  "Duration_mult Second 9223372037 = - 9223372036709551616"
  by (simp add: Duration_mult_def Second_def signed_take_bit_eq_take_bit_shift take_bit_eq_mod)

text \<open>
  C2: if \<^verbatim>\<open>json.Marshal\<close> fails, \<^verbatim>\<open>Set\<close> returns false, the session (and so the Local
  Cache) is unchanged, no goroutine is started and the store is not written. If the
  write to the store fails, \<^verbatim>\<open>Set\<close> returns false, the session is unchanged, no
  goroutine is started and the \<open>SET\<close> is the only command that was sent. If both
  succeed, \<^verbatim>\<open>Set\<close> returns true.
\<close>
theorem Set_failure_no_effects:
  assumes "Set J srv rs key data ttl w = (b, rs1, w1)"
  shows "(\<forall>e. Marshal J data = Inl e
            \<longrightarrow> \<not> b \<and> rs1 = rs \<and> spawned w1 = spawned w \<and> history w1 = history w)
    \<and> (\<forall>s e. Marshal J data = Inr s
              \<and> cmd_err (SET_reply srv rs key s (if ttl \<le> 0 then redis_item_timeout else ttl) w) = Some e
            \<longrightarrow> \<not> b \<and> rs1 = rs \<and> spawned w1 = spawned w
              \<and> map call_of (new_events w w1) =
                  [SET key s (Duration_mult Second (if ttl \<le> 0 then redis_item_timeout else ttl))])
    \<and> (\<forall>s. Marshal J data = Inr s
              \<and> cmd_err (SET_reply srv rs key s (if ttl \<le> 0 then redis_item_timeout else ttl) w) = None
            \<longrightarrow> b)"
  using assms
  by (auto simp add: Set_eq Let_def log_Warn_def record_event_def new_events_def call_of_def)

theorem Set_failure_no_effects_witness:
  "Marshal demo_json ''chan'' = Inl ''json: unsupported type''
   \<and> Set demo_json (demo_server Map.empty [''b''] (\<lambda>c. ([], 0))) demo_session ''k'' ''chan'' 10 demo_world
       = (False, demo_session, log_Warn ''json: unsupported type'' demo_world)
   \<and> Marshal demo_json ''v'' = Inr ''s:v''
   \<and> cmd_err (SET_reply (demo_server Map.empty [''b''] (\<lambda>c. ([], 0))) demo_session ''b'' ''s:v'' 10 demo_world)
       = Some ''READONLY''
   \<and> Set demo_json (demo_server Map.empty [''b''] (\<lambda>c. ([], 0))) demo_session ''b'' ''v'' 10 demo_world
       = (False, demo_session,
          \<lparr>history = [(client, SET ''b'' ''s:v'' 10000000000, StatusCmd (err_Cmd '''' ''READONLY''))],
           spawned = [], logged = [Warn ''READONLY'']\<rparr>)
   \<and> cmd_err (SET_reply (demo_server Map.empty [''b''] (\<lambda>c. ([], 0))) demo_session ''k'' ''s:v'' 10 demo_world)
       = None
   \<and> Set demo_json (demo_server Map.empty [''b''] (\<lambda>c. ([], 0))) demo_session ''k'' ''v'' 10 demo_world
       = (True, demo_session\<lparr>mem := [''k'' \<mapsto> (''s:v'', 10)]\<rparr>,
          \<lparr>history = [(client, SET ''k'' ''s:v'' 10000000000, StatusCmd (ok_Cmd ''OK''))],
           spawned = [go_publish ''k'' ''s:v'' 10 1], logged = []\<rparr>)"
proof -
  have a: "Set demo_json (demo_server Map.empty [''b''] (\<lambda>c. ([], 0))) demo_session ''k'' ''chan'' 10 demo_world
       = (False, demo_session, log_Warn ''json: unsupported type'' demo_world)"
    by (simp add: Set_defs demo_defs)
  have b: "Set demo_json (demo_server Map.empty [''b''] (\<lambda>c. ([], 0))) demo_session ''b'' ''v'' 10 demo_world
       = (False, demo_session,
          \<lparr>history = [(client, SET ''b'' ''s:v'' 10000000000, StatusCmd (err_Cmd '''' ''READONLY''))],
           spawned = [], logged = [Warn ''READONLY'']\<rparr>)"
    by (simp add: Set_defs demo_defs signed_take_bit_eq_if_positive flip: take_bit_eq_mod)
  have c: "Set demo_json (demo_server Map.empty [''b''] (\<lambda>c. ([], 0))) demo_session ''k'' ''v'' 10 demo_world
       = (True, demo_session\<lparr>mem := [''k'' \<mapsto> (''s:v'', 10)]\<rparr>,
          \<lparr>history = [(client, SET ''k'' ''s:v'' 10000000000, StatusCmd (ok_Cmd ''OK''))],
           spawned = [go_publish ''k'' ''s:v'' 10 1], logged = []\<rparr>)"
    by (simp add: Set_defs demo_defs signed_take_bit_eq_if_positive flip: take_bit_eq_mod)
  have m: "Marshal demo_json ''chan'' = Inl ''json: unsupported type''" "Marshal demo_json ''v'' = Inr ''s:v''"
    by (simp_all add: demo_json_def)
  have r: "cmd_err (SET_reply (demo_server Map.empty [''b''] (\<lambda>c. ([], 0))) demo_session ''b'' ''s:v'' 10 demo_world)
       = Some ''READONLY''"
     "cmd_err (SET_reply (demo_server Map.empty [''b''] (\<lambda>c. ([], 0))) demo_session ''k'' ''s:v'' 10 demo_world)
       = None"
    by (simp_all add: SET_reply_def demo_defs)
  from Set_failure_no_effects [OF a] Set_failure_no_effects [OF b] Set_failure_no_effects [OF c]
    a b c m r
  show ?thesis by simp
qed

text \<open>
  C7: for \<open>ttl \<le> 0\<close>, \<^verbatim>\<open>Set\<close> writes the value to the store with the expiration
  \<^verbatim>\<open>redis_item_timeout\<close>, 3600 seconds (3600000000000 nanoseconds), a positive
  duration; when the write succeeds the Local Cache entry and the notice carry the
  TTL 3600 as well.
\<close>
theorem Set_default_timeout:
  assumes "ttl \<le> 0" and "Marshal J data = Inr s" and "Set J srv rs key data ttl w = (b, rs1, w1)"
  shows "history w1 =
           (handle_of rs, SET key s 3600000000000,
            StatusCmd (on_Set srv (history w) (handle_of rs) key s 3600000000000)) # history w
    \<and> Seconds 3600000000000 = redis_item_timeout
    \<and> redis_item_timeout = 3600
    \<and> (b \<longrightarrow> mem rs1 key = Some (s, 3600)
            \<and> spawned w1 = spawned w @ [go_publish key s 3600 redis_sync_set])"
proof -
  have d: "Duration_mult Second redis_item_timeout = 3600000000000"
    by (simp add: Duration_mult_def Second_def redis_item_timeout_def signed_take_bit_eq_if_positive flip: take_bit_eq_mod)
  have s: "Seconds 3600000000000 = redis_item_timeout"
    by (simp add: Seconds_def redis_item_timeout_def signed_divide_int_def)
  from assms d s show ?thesis
    by (auto simp add: Set_eq Let_def SET_reply_def log_Warn_def record_event_def spawn_def mem_Set_def
          redis_item_timeout_def split: option.splits)
qed

theorem Set_default_timeout_witness:
  "(0::int) \<le> 0 \<and> Marshal demo_json ''v'' = Inr ''s:v''
   \<and> Set demo_json (demo_server Map.empty [] (\<lambda>c. ([], 0))) demo_session ''k'' ''v'' 0 demo_world
       = (True, demo_session\<lparr>mem := [''k'' \<mapsto> (''s:v'', 3600)]\<rparr>,
          \<lparr>history = [(client, SET ''k'' ''s:v'' 3600000000000, StatusCmd (ok_Cmd ''OK''))],
           spawned = [go_publish ''k'' ''s:v'' 3600 1], logged = []\<rparr>)
   \<and> Seconds 3600000000000 = 3600"
proof -
  have c: "Set demo_json (demo_server Map.empty [] (\<lambda>c. ([], 0))) demo_session ''k'' ''v'' 0 demo_world
       = (True, demo_session\<lparr>mem := [''k'' \<mapsto> (''s:v'', 3600)]\<rparr>,
          \<lparr>history = [(client, SET ''k'' ''s:v'' 3600000000000, StatusCmd (ok_Cmd ''OK''))],
           spawned = [go_publish ''k'' ''s:v'' 3600 1], logged = []\<rparr>)"
    by (simp add: Set_defs demo_defs signed_take_bit_eq_if_positive flip: take_bit_eq_mod)
  have m: "Marshal demo_json ''v'' = Inr ''s:v''"
    by (simp add: demo_json_def)
  have z: "(0::int) \<le> 0" by simp
  from Set_default_timeout [OF z m c] c m show ?thesis
    by simp
qed



subsection \<open>subscribe\<close>



text \<open>
  The same over the whole loop: a channel on which every notice that decodes has the
  session's own name as origin leaves the Local Cache as it was.
\<close>

lemma subscribe_range_self:
  assumes "\<And>payload p0. payload \<in> set chn \<Longrightarrow>
             fst (Unmarshal J payload p0) = None \<Longrightarrow> From (snd (Unmarshal J payload p0)) = name rs"
  shows "mem (fst (snd (subscribe_range J chn (pub0, rs, w)))) = mem rs
       \<and> name (fst (snd (subscribe_range J chn (pub0, rs, w)))) = name rs"
  using assms
proof (induction chn arbitrary: pub0 rs w)
  case Nil
  show ?case by simp
next
  case (Cons payload chn)
  obtain e pub where u: "Unmarshal J payload pub0 = (e, pub)"
    by (cases "Unmarshal J payload pub0")
  have "\<exists>w1. subscribe_msg J payload (pub0, rs, w) = (pub, rs, w1)"
  proof (cases e)
    case None
    with u Cons.prems [of payload pub0] have "From pub = name rs" by simp
    with u None show ?thesis by (simp add: subscribe_msg_def)
  next
    case (Some a)
    with u show ?thesis by (simp add: subscribe_msg_def)
  qed
  then obtain w1 where s: "subscribe_msg J payload (pub0, rs, w) = (pub, rs, w1)" ..
  from Cons.IH [of rs pub w1] Cons.prems s show ?case by simp
qed

subsection \<open>HDel\<close>




subsection \<open>ScanDelete\<close>

text \<open>How the notions of the statements read a history, event by event.\<close>

lemma scan_requests_simps [simp]:
  "scan_requests [] = []"
  "scan_requests (evs @ evs') = scan_requests evs @ scan_requests evs'"
  "scan_requests ((h, SCAN c m n, rp) # evs) = (c, m, n) # scan_requests evs"
  "scan_requests ((h, DEL ks, rp) # evs) = scan_requests evs"
  by (simp_all add: scan_requests_def scan_request_def)

lemma scan_pages_simps [simp]:
  "scan_pages [] = []"
  "scan_pages (evs @ evs') = scan_pages evs @ scan_pages evs'"
  "scan_pages ((h, SCAN c m n, ScanCmd r) # evs) =
     (case cmd_err r of None \<Rightarrow> [cmd_val r] | Some e \<Rightarrow> []) @ scan_pages evs"
  "scan_pages ((h, DEL ks, rp) # evs) = scan_pages evs"
  by (simp_all add: scan_pages_def scan_page_def)

lemma deleted_simps [simp]:
  "deleted [] = []"
  "deleted (evs @ evs') = deleted evs @ deleted evs'"
  "deleted ((h, SCAN c m n, rp) # evs) = deleted evs"
  "deleted ((h, DEL ks, IntCmd r) # evs) =
     (case cmd_err r of None \<Rightarrow> ks | Some e \<Rightarrow> []) @ deleted evs"
  by (simp_all add: deleted_def deleted_keys_def)

lemma scanned_simps [simp]:
  "scanned [] = []"
  "scanned (evs @ evs') = scanned evs @ scanned evs'"
  by (simp_all add: scanned_def)

lemma new_events_append:
  assumes "history w' = rev evs @ history w"
  shows "new_events w w' = evs"
  using assms by (simp add: new_events_def)

text \<open>
  The inner loop sends deletes only. Without error every key of the page was deleted,
  in order; with an error a proper prefix of the page was.
\<close>

lemma ScanDelete_range_events:
  assumes "ScanDelete_range srv rs key vs w = (e, w')"
  shows "\<exists>evs. history w' = rev evs @ history w \<and> scan_requests evs = [] \<and> scan_pages evs = []
           \<and> (case e of None \<Rightarrow> deleted evs = vs
               | Some x \<Rightarrow> length (deleted evs) < length vs \<and> take (length (deleted evs)) vs = deleted evs)"
  using assms
proof (induction vs arbitrary: w)
  case Nil
  then have "history w' = rev [] @ history w \<and> scan_requests [] = [] \<and> scan_pages [] = []
           \<and> (case e of None \<Rightarrow> deleted [] = []
               | Some x \<Rightarrow> length (deleted []) < length ([]::string list) \<and> take (length (deleted [])) [] = deleted [])"
    by auto
  then show ?case by blast
next
  case (Cons v vs)
  define r where "r = on_Del srv (history w) (handle_of rs) [v]"
  define w1 where "w1 = record_event (handle_of rs) (DEL [v]) (IntCmd r) w"
  have h1: "history w1 = (handle_of rs, DEL [v], IntCmd r) # history w"
    by (simp add: w1_def record_event_def)
  show ?case
  proof (cases "cmd_err r")
    case (Some x)
    with Cons.prems have e: "e = Some x" and w': "w' = log_Error x w1"
      by (simp_all add: redis_Del_def handle_of_def Let_def r_def w1_def split: if_splits)
    let ?evs = "[(handle_of rs, DEL [v], IntCmd r)]"
    have "history w' = rev ?evs @ history w \<and> scan_requests ?evs = [] \<and> scan_pages ?evs = []
           \<and> (case e of None \<Rightarrow> deleted ?evs = v # vs
               | Some x \<Rightarrow> length (deleted ?evs) < length (v # vs)
                    \<and> take (length (deleted ?evs)) (v # vs) = deleted ?evs)"
      by (simp add: e w' h1 log_Error_def Some)
    then show ?thesis by blast
  next
    case None
    with Cons.prems have "ScanDelete_range srv rs key vs w1 = (e, w')"
      by (simp add: redis_Del_def handle_of_def Let_def r_def w1_def split: if_splits)
    from Cons.IH [OF this] obtain evs where
      evs: "history w' = rev evs @ history w1" "scan_requests evs = []" "scan_pages evs = []"
        "case e of None \<Rightarrow> deleted evs = vs
               | Some x \<Rightarrow> length (deleted evs) < length vs \<and> take (length (deleted evs)) vs = deleted evs"
      by blast
    let ?evs = "(handle_of rs, DEL [v], IntCmd r) # evs"
    have "history w' = rev ?evs @ history w \<and> scan_requests ?evs = [] \<and> scan_pages ?evs = []
           \<and> (case e of None \<Rightarrow> deleted ?evs = v # vs
               | Some x \<Rightarrow> length (deleted ?evs) < length (v # vs)
                    \<and> take (length (deleted ?evs)) (v # vs) = deleted ?evs)"
      using evs by (simp add: h1 None split: option.splits)
    then show ?thesis by blast
  qed
qed

text \<open>The outer loop, by induction on the fuel, from any cursor and count.\<close>

lemma ScanDelete_for_events:
  assumes "ScanDelete_for fuel srv rs key c0 n0 w = Some ((n, e), w')"
  shows "\<exists>evs. history w' = rev evs @ history w \<and> ScanDelete_outcome key c0 n0 evs n e"
  using assms
proof (induction fuel arbitrary: c0 n0 w)
  case 0
  then show ?case by simp
next
  case (Suc fuel)
  define r where "r = on_Scan srv (history w) (handle_of rs) c0 key 100"
  define ev where "ev = (handle_of rs, SCAN c0 key 100, ScanCmd r)"
  define w1 where "w1 = record_event (handle_of rs) (SCAN c0 key 100) (ScanCmd r) w"
  have h1: "history w1 = ev # history w"
    by (simp add: w1_def ev_def record_event_def)
  have scan: "(if cluster rs then redis_Scan srv clusterCLi c0 key 100 w
               else redis_Scan srv client c0 key 100 w) = (r, w1)"
    by (simp add: redis_Scan_def handle_of_def Let_def r_def w1_def)
  show ?case
  proof (cases "cmd_err r")
    case (Some x)
    with Suc.prems scan have res: "n = 0" "e = Some x" "w' = log_Error x w1"
      by simp_all
    have "history w' = rev [ev] @ history w \<and> ScanDelete_outcome key c0 n0 [ev] n e"
      by (simp add: res h1 log_Error_def ScanDelete_outcome_def ev_def Some scanned_def)
    then show ?thesis by blast
  next
    case None
    obtain ks c1 where kc: "cmd_val r = (ks, c1)"
      by (cases "cmd_val r")
    obtain e1 w2 where rg: "ScanDelete_range srv rs key ks w1 = (e1, w2)"
      by (cases "ScanDelete_range srv rs key ks w1")
    from ScanDelete_range_events [OF rg] obtain evd where
      evd: "history w2 = rev evd @ history w1" "scan_requests evd = []" "scan_pages evd = []"
        "case e1 of None \<Rightarrow> deleted evd = ks
           | Some x \<Rightarrow> length (deleted evd) < length ks \<and> take (length (deleted evd)) ks = deleted evd"
      by blast
    have pg: "scan_pages (ev # evd) = [(ks, c1)]" "scan_requests (ev # evd) = [(c0, key, 100)]"
        "scanned (ev # evd) = ks" "deleted (ev # evd) = deleted evd"
      using evd by (simp_all add: ev_def None kc scanned_def)
    show ?thesis
    proof (cases e1)
      case (Some x)
      with Suc.prems scan None kc rg have res: "n = n0 + int (length ks)" "e = Some x" "w' = w2"
        by simp_all
      have "history w' = rev (ev # evd) @ history w \<and> ScanDelete_outcome key c0 n0 (ev # evd) n e"
        using evd(4) by (simp add: res evd(1) h1 ScanDelete_outcome_def pg Some)
      then show ?thesis by blast
    next
      case e1: None
      show ?thesis
      proof (cases "c1 = 0")
        case True
        with Suc.prems scan None kc rg e1 have res: "n = n0 + int (length ks)" "e = None" "w' = w2"
          by simp_all
        have "history w' = rev (ev # evd) @ history w \<and> ScanDelete_outcome key c0 n0 (ev # evd) n e"
          using evd(4) by (simp add: res evd(1) h1 ScanDelete_outcome_def pg e1 True)
        then show ?thesis by blast
      next
        case False
        with Suc.prems scan None kc rg e1
        have "ScanDelete_for fuel srv rs key c1 (n0 + int (length ks)) w2 = Some ((n, e), w')"
          by simp
        from Suc.IH [OF this] obtain evs where
          evs: "history w' = rev evs @ history w2"
            "ScanDelete_outcome key c1 (n0 + int (length ks)) evs n e"
          by blast
        have hist: "history w' = rev ((ev # evd) @ evs) @ history w"
          by (simp add: evs(1) evd(1) h1)
        have d: "deleted evd = ks"
          using evd(4) e1 by simp
        have "ScanDelete_outcome key c0 n0 ((ev # evd) @ evs) n e"
          using evs(2) False
          unfolding ScanDelete_outcome_def scan_requests_simps(2) scan_pages_simps(2)
            scanned_simps(2) deleted_simps(2) pg d
          by (cases "scan_pages evs = []") (auto split: option.splits if_splits)
        with hist show ?thesis by blast
      qed
    qed
  qed
qed

text \<open>
  The loop returns when the cursors of the store decrease in some rank until they are
  zero: fuel above the rank of the first cursor is enough. More fuel does not change
  what is returned.
\<close>

lemma ScanDelete_for_returns:
  assumes "\<And>hist h c m k. snd (cmd_val (on_Scan srv hist h c m k)) = 0
             \<or> rank (snd (cmd_val (on_Scan srv hist h c m k))) < rank c"
    and "rank c0 < fuel"
  shows "\<exists>res. ScanDelete_for fuel srv rs key c0 n0 w = Some res"
  using assms(2)
proof (induction fuel arbitrary: c0 n0 w)
  case 0
  then show ?case by simp
next
  case (Suc fuel)
  define r where "r = on_Scan srv (history w) (handle_of rs) c0 key 100"
  define w1 where "w1 = record_event (handle_of rs) (SCAN c0 key 100) (ScanCmd r) w"
  have scan: "(if cluster rs then redis_Scan srv clusterCLi c0 key 100 w
               else redis_Scan srv client c0 key 100 w) = (r, w1)"
    by (simp add: redis_Scan_def handle_of_def Let_def r_def w1_def)
  show ?case
  proof (cases "cmd_err r")
    case (Some x)
    with scan show ?thesis by simp
  next
    case None
    obtain ks c1 where kc: "cmd_val r = (ks, c1)"
      by (cases "cmd_val r")
    obtain e1 w2 where rg: "ScanDelete_range srv rs key ks w1 = (e1, w2)"
      by (cases "ScanDelete_range srv rs key ks w1")
    show ?thesis
    proof (cases "e1 = None \<and> c1 \<noteq> 0")
      case False
      with scan None kc rg show ?thesis by (auto simp add: Let_def split: option.splits)
    next
      case True
      from assms(1) [of "history w" "handle_of rs" c0 key 100] True kc
      have "rank c1 < rank c0" by (simp add: r_def)
      with Suc.prems have "rank c1 < fuel" by simp
      from Suc.IH [OF this] obtain res where
        "ScanDelete_for fuel srv rs key c1 (n0 + int (length ks)) w2 = Some res"
        by blast
      with scan None kc rg True show ?thesis by simp
    qed
  qed
qed

lemma ScanDelete_for_more_fuel:
  assumes "ScanDelete_for fuel srv rs key c0 n0 w = Some res"
  shows "ScanDelete_for (fuel + k) srv rs key c0 n0 w = Some res"
  using assms
proof (induction fuel arbitrary: c0 n0 w)
  case 0
  then show ?case by simp
next
  case (Suc fuel)
  define r where "r = on_Scan srv (history w) (handle_of rs) c0 key 100"
  define w1 where "w1 = record_event (handle_of rs) (SCAN c0 key 100) (ScanCmd r) w"
  have scan: "(if cluster rs then redis_Scan srv clusterCLi c0 key 100 w
               else redis_Scan srv client c0 key 100 w) = (r, w1)"
    by (simp add: redis_Scan_def handle_of_def Let_def r_def w1_def)
  show ?case
  proof (cases "cmd_err r")
    case (Some x)
    with scan Suc.prems show ?thesis by simp
  next
    case None
    obtain ks c1 where kc: "cmd_val r = (ks, c1)"
      by (cases "cmd_val r")
    obtain e1 w2 where rg: "ScanDelete_range srv rs key ks w1 = (e1, w2)"
      by (cases "ScanDelete_range srv rs key ks w1")
    show ?thesis
    proof (cases "e1 = None \<and> c1 \<noteq> 0")
      case False
      with scan None kc rg Suc.prems show ?thesis
        by (auto simp add: Let_def split: option.splits)
    next
      case True
      with scan None kc rg Suc.prems
      have "ScanDelete_for fuel srv rs key c1 (n0 + int (length ks)) w2 = Some res"
        by simp
      from Suc.IH [OF this]
      have "ScanDelete_for (fuel + k) srv rs key c1 (n0 + int (length ks)) w2 = Some res" .
      with scan None kc rg True show ?thesis by simp
    qed
  qed
qed

text \<open>
  C5 (amended): whenever \<^verbatim>\<open>ScanDelete\<close> returns, every scan it sent asked for pages of
  100 keys of the pattern, the first at cursor zero and each later one at the cursor
  the store returned last, and it went on exactly while that cursor was not zero.
  Without error it returns the number of keys of all pages, each of which was
  deleted. If a scan fails it returns zero and the error. If a delete fails it returns
  the error and the number of keys of all pages fetched so far, the whole current
  page included, which is more than the number of keys deleted. And it does return,
  with fuel \<open>rank 0 + 1\<close>, when the store's cursors go down in some rank until they
  reach zero.
\<close>
theorem ScanDelete_pages:
  "(\<forall>fuel n e w'. ScanDelete fuel srv rs key w = Some ((n, e), w') \<longrightarrow>
      history w' = rev (new_events w w') @ history w
      \<and> scan_requests (new_events w w') =
          map (\<lambda>c. (c, key, 100))
            (take (length (scan_requests (new_events w w'))) (0 # map snd (scan_pages (new_events w w'))))
      \<and> list_all (\<lambda>c. c \<noteq> 0) (butlast (map snd (scan_pages (new_events w w'))))
      \<and> (case e of
            None \<Rightarrow>
              n = int (length (scanned (new_events w w')))
              \<and> deleted (new_events w w') = scanned (new_events w w')
              \<and> length (scan_requests (new_events w w')) = length (scan_pages (new_events w w'))
              \<and> scan_pages (new_events w w') \<noteq> []
              \<and> snd (last (scan_pages (new_events w w'))) = 0
          | Some x \<Rightarrow>
              if length (scan_pages (new_events w w')) < length (scan_requests (new_events w w'))
              then n = 0 \<and> deleted (new_events w w') = scanned (new_events w w')
              else n = int (length (scanned (new_events w w')))
                \<and> length (deleted (new_events w w')) < length (scanned (new_events w w'))
                \<and> take (length (deleted (new_events w w'))) (scanned (new_events w w'))
                    = deleted (new_events w w')))
   \<and> ((\<forall>hist h c m k. snd (cmd_val (on_Scan srv hist h c m k)) = 0
             \<or> rank (snd (cmd_val (on_Scan srv hist h c m k))) < rank c)
        \<longrightarrow> (\<exists>res. ScanDelete (Suc (rank 0)) srv rs key w = Some res))"
proof (intro conjI allI impI)
  fix fuel n e w'
  assume "ScanDelete fuel srv rs key w = Some ((n, e), w')"
  then have "ScanDelete_for fuel srv rs key 0 0 w = Some ((n, e), w')"
    by (simp add: ScanDelete_def)
  from ScanDelete_for_events [OF this] obtain evs where
    evs: "history w' = rev evs @ history w" "ScanDelete_outcome key 0 0 evs n e"
    by blast
  have ne: "new_events w w' = evs"
    using evs(1) by (rule new_events_append)
  show "history w' = rev (new_events w w') @ history w"
    by (simp add: ne evs(1))
  show "scan_requests (new_events w w') =
          map (\<lambda>c. (c, key, 100))
            (take (length (scan_requests (new_events w w'))) (0 # map snd (scan_pages (new_events w w'))))"
    using evs(2) unfolding ne ScanDelete_outcome_def by blast
  show "list_all (\<lambda>c. c \<noteq> 0) (butlast (map snd (scan_pages (new_events w w'))))"
    using evs(2) unfolding ne ScanDelete_outcome_def by blast
  show "case e of
            None \<Rightarrow>
              n = int (length (scanned (new_events w w')))
              \<and> deleted (new_events w w') = scanned (new_events w w')
              \<and> length (scan_requests (new_events w w')) = length (scan_pages (new_events w w'))
              \<and> scan_pages (new_events w w') \<noteq> []
              \<and> snd (last (scan_pages (new_events w w'))) = 0
          | Some x \<Rightarrow>
              if length (scan_pages (new_events w w')) < length (scan_requests (new_events w w'))
              then n = 0 \<and> deleted (new_events w w') = scanned (new_events w w')
              else n = int (length (scanned (new_events w w')))
                \<and> length (deleted (new_events w w')) < length (scanned (new_events w w'))
                \<and> take (length (deleted (new_events w w'))) (scanned (new_events w w'))
                    = deleted (new_events w w')"
    using evs(2) unfolding ne ScanDelete_outcome_def
    by (auto split: option.splits if_splits)
next
  assume "\<forall>hist h c m k. snd (cmd_val (on_Scan srv hist h c m k)) = 0
             \<or> rank (snd (cmd_val (on_Scan srv hist h c m k))) < rank c"
  then have "\<And>hist h c m k. snd (cmd_val (on_Scan srv hist h c m k)) = 0
             \<or> rank (snd (cmd_val (on_Scan srv hist h c m k))) < rank c"
    by blast
  from ScanDelete_for_returns [OF this, of 0 "Suc (rank 0)" rs key 0 w]
  show "\<exists>res. ScanDelete (Suc (rank 0)) srv rs key w = Some res"
    by (simp add: ScanDelete_def)
qed

theorem ScanDelete_pages_witness:
  "ScanDelete 3 (demo_server Map.empty [] demo_pages) demo_session ''user:*'' demo_world =
     Some ((4, None),
       \<lparr>history =
          [(client, DEL [''d''], IntCmd (ok_Cmd 1)),
           (client, DEL [''c''], IntCmd (ok_Cmd 1)),
           (client, SCAN 7 ''user:*'' 100, ScanCmd (ok_Cmd ([''c'', ''d''], 0))),
           (client, DEL [''b''], IntCmd (ok_Cmd 1)),
           (client, DEL [''a''], IntCmd (ok_Cmd 1)),
           (client, SCAN 0 ''user:*'' 100, ScanCmd (ok_Cmd ([''a'', ''b''], 7)))],
        spawned = [], logged = []\<rparr>)
   \<and> Suc (demo_rank 0) = 3
   \<and> scan_requests (new_events demo_world
        \<lparr>history =
          [(client, DEL [''d''], IntCmd (ok_Cmd 1)),
           (client, DEL [''c''], IntCmd (ok_Cmd 1)),
           (client, SCAN 7 ''user:*'' 100, ScanCmd (ok_Cmd ([''c'', ''d''], 0))),
           (client, DEL [''b''], IntCmd (ok_Cmd 1)),
           (client, DEL [''a''], IntCmd (ok_Cmd 1)),
           (client, SCAN 0 ''user:*'' 100, ScanCmd (ok_Cmd ([''a'', ''b''], 7)))],
        spawned = [], logged = []\<rparr>) = [(0, ''user:*'', 100), (7, ''user:*'', 100)]
   \<and> deleted (new_events demo_world
        \<lparr>history =
          [(client, DEL [''d''], IntCmd (ok_Cmd 1)),
           (client, DEL [''c''], IntCmd (ok_Cmd 1)),
           (client, SCAN 7 ''user:*'' 100, ScanCmd (ok_Cmd ([''c'', ''d''], 0))),
           (client, DEL [''b''], IntCmd (ok_Cmd 1)),
           (client, DEL [''a''], IntCmd (ok_Cmd 1)),
           (client, SCAN 0 ''user:*'' 100, ScanCmd (ok_Cmd ([''a'', ''b''], 7)))],
        spawned = [], logged = []\<rparr>) = [''a'', ''b'', ''c'', ''d'']"
proof -
  have ev: "ScanDelete 3 (demo_server Map.empty [] demo_pages) demo_session ''user:*'' demo_world =
     Some ((4, None),
       \<lparr>history =
          [(client, DEL [''d''], IntCmd (ok_Cmd 1)),
           (client, DEL [''c''], IntCmd (ok_Cmd 1)),
           (client, SCAN 7 ''user:*'' 100, ScanCmd (ok_Cmd ([''c'', ''d''], 0))),
           (client, DEL [''b''], IntCmd (ok_Cmd 1)),
           (client, DEL [''a''], IntCmd (ok_Cmd 1)),
           (client, SCAN 0 ''user:*'' 100, ScanCmd (ok_Cmd ([''a'', ''b''], 7)))],
        spawned = [], logged = []\<rparr>)"
    by (simp add: ScanDelete_defs demo_defs demo_pages_def)
  have rk: "\<forall>hist h c m k.
      snd (cmd_val (on_Scan (demo_server Map.empty [] demo_pages) hist h c m k)) = 0
      \<or> demo_rank (snd (cmd_val (on_Scan (demo_server Map.empty [] demo_pages) hist h c m k)))
          < demo_rank c"
    by (simp add: demo_defs demo_pages_def demo_rank_def)
  have s: "Suc (demo_rank 0) = 3"
    by (simp add: demo_rank_def)
  from ScanDelete_pages [of "demo_server Map.empty [] demo_pages" demo_session "''user:*''"
      demo_world demo_rank] ev rk s
  show ?thesis
    by (simp add: new_events_def demo_world_def ok_Cmd_def)
qed

text \<open>
  The claim as it was stated has the count of the deletions performed so far returned
  when a delete fails. With the pages \<open>[a, b]\<close> and \<open>[c, d]\<close> and a store that refuses
  to delete \<open>c\<close>, \<^verbatim>\<open>ScanDelete\<close> returns 4 with the error, and two keys were deleted.
\<close>

theorem ScanDelete_count_exceeds_deletions:
  "ScanDelete 3 (demo_server Map.empty [''c''] demo_pages) demo_session ''user:*'' demo_world =
     Some ((4, Some ''READONLY''),
       \<lparr>history =
          [(client, DEL [''c''], IntCmd (err_Cmd 0 ''READONLY'')),
           (client, SCAN 7 ''user:*'' 100, ScanCmd (ok_Cmd ([''c'', ''d''], 0))),
           (client, DEL [''b''], IntCmd (ok_Cmd 1)),
           (client, DEL [''a''], IntCmd (ok_Cmd 1)),
           (client, SCAN 0 ''user:*'' 100, ScanCmd (ok_Cmd ([''a'', ''b''], 7)))],
        spawned = [], logged = [Error ''READONLY'']\<rparr>)
   \<and> deleted (new_events demo_world
        \<lparr>history =
          [(client, DEL [''c''], IntCmd (err_Cmd 0 ''READONLY'')),
           (client, SCAN 7 ''user:*'' 100, ScanCmd (ok_Cmd ([''c'', ''d''], 0))),
           (client, DEL [''b''], IntCmd (ok_Cmd 1)),
           (client, DEL [''a''], IntCmd (ok_Cmd 1)),
           (client, SCAN 0 ''user:*'' 100, ScanCmd (ok_Cmd ([''a'', ''b''], 7)))],
        spawned = [], logged = [Error ''READONLY'']\<rparr>) = [''a'', ''b'']
   \<and> (4::int) \<noteq> int (length [''a'', ''b''])"
  by (simp add: ScanDelete_defs demo_defs demo_pages_def new_events_def)

end
